theory Spec2Isabelle
  imports Complex_Main "HOL-Library.Word" "HOL-Library.Code_Target_Nat"
begin

section \<open>JavaScript strings\<close>

text \<open>
  A JavaScript string is a sequence of UTF-16 code units; \<open>length\<close> counts code units.
  String literals of the source are ASCII apart from two emoji, written out below.
\<close>

type_synonym code_unit = "16 word"
type_synonym jsstring = "code_unit list"

definition js :: "string \<Rightarrow> jsstring" where
  "js s = map of_char s"

text \<open>U+26A0 U+FE0F (warning sign with variation selector) and U+23F0 (alarm clock).\<close>

definition warning_sign :: jsstring where
  "warning_sign = [0x26A0, 0xFE0F]"

definition alarm_clock :: jsstring where
  "alarm_clock = [0x23F0]"

text \<open>
  \<open>String.prototype.trim\<close> strips WhiteSpace and LineTerminator code points from both
  ends (ECMAScript StrWhiteSpaceChar); all of them are single code units.
\<close>

definition isWhiteSpace :: "code_unit \<Rightarrow> bool" where
  "isWhiteSpace c \<longleftrightarrow>
     c \<in> set [0x0009, 0x000A, 0x000B, 0x000C, 0x000D, 0x0020, 0x00A0, 0x1680,
               0x2000, 0x2001, 0x2002, 0x2003, 0x2004, 0x2005, 0x2006, 0x2007,
               0x2008, 0x2009, 0x200A, 0x2028, 0x2029, 0x202F, 0x205F, 0x3000, 0xFEFF]"

definition trimStart :: "jsstring \<Rightarrow> jsstring" where
  "trimStart s = dropWhile isWhiteSpace s"

definition trimEnd :: "jsstring \<Rightarrow> jsstring" where
  "trimEnd s = rev (dropWhile isWhiteSpace (rev s))"

definition trim :: "jsstring \<Rightarrow> jsstring" where
  "trim s = trimEnd (trimStart s)"

text \<open>\<open>ToString\<close> of a value that is a string or \<open>null\<close> (template literals, \<open>parseInt\<close>).\<close>

definition toString :: "jsstring option \<Rightarrow> jsstring" where
  "toString v = (case v of None \<Rightarrow> js ''null'' | Some s \<Rightarrow> s)"

text \<open>\<open>v || d\<close> on a string or \<open>null\<close>: \<open>null\<close> and the empty string are falsy.\<close>

definition or_default :: "jsstring option \<Rightarrow> jsstring \<Rightarrow> jsstring" where
  "or_default v d = (case v of None \<Rightarrow> d | Some s \<Rightarrow> if s = [] then d else s)"

section \<open>The window: what the scripts read and write\<close>

text \<open>Requests sent over the bridge (\<open>eel.f(args)()\<close>).\<close>

datatype bridge_call =
    Login jsstring jsstring
  | VerifyOtp "jsstring option" jsstring
  | GetBalance "jsstring option"
  | ToggleMaintenance bool

text \<open>
  Everything a script does to the outside, in program order: writes to \<open>innerText\<close> and
  \<open>style.display\<close> of an element (named by its id), the arc drawn on the canvas (start and
  end angle, both in units of \<open>\<pi>\<close> radians), bridge requests, navigation,
  \<open>setTimeout(tick, 1000)\<close>, and the callback that \<open>show_balance\<close> schedules (with the text
  it is to write into \<open>balance-amount\<close> 300 ms later).
\<close>

datatype effect =
    InnerText string jsstring
  | Display string jsstring
  | Arc rat rat
  | Eel bridge_call
  | Navigate jsstring
  | SetTimeoutTick
  | SetTimeoutBalance jsstring
  | ConsoleWarn

text \<open>
  The function bodies that the scripts register with \<open>eel.expose\<close>.  Every page script declares
  its own \<open>trigger_emergency_mode\<close> (script.js:44 and :88, otp.js:95, the balance script:16),
  all with the same body; global.js:7 declares another one.
\<close>

datatype handler =
    GlobalEmergency
  | PageEmergency
  | ShowStatus
  | RedirectOtp
  | OtpFailed
  | RedirectMain

datatype listener = LockdownCheck

text \<open>
  \<open>sessionStorage\<close> is shared by all pages of the browsing session; everything else belongs
  to one page load.  \<open>lockscreen\<close> is the inline \<open>style.display\<close> of the element with id
  \<open>lockscreen\<close>, \<open>None\<close> when the page has no such element (\<open>getElementById\<close> returns
  \<open>null\<close>).  \<open>searchParams\<close> are the decoded query parameters of the page's URL.
  \<open>timeLeft\<close> is the module variable of otp.js, \<open>pending\<close> the number of scheduled
  \<open>tick\<close> callbacks.  Elements that the scripts dereference without a null check
  (\<open>status\<close>, \<open>countdown\<close>, \<open>circle\<close>, \<open>otp\<close>, \<open>user\<close>, \<open>pass\<close>, \<open>menu\<close>,
  \<open>balance-amount\<close>)
  are taken to exist on the page that loads the script.
\<close>

record page =
  sessionStorage :: "string \<rightharpoonup> jsstring"
  searchParams :: "string \<rightharpoonup> jsstring"
  lockscreen :: "jsstring option"
  exposed :: "string \<rightharpoonup> handler"
  listeners :: "listener list"
  timeLeft :: int
  pending :: nat
  trace :: "effect list"

definition emit :: "effect \<Rightarrow> page \<Rightarrow> page" where
  "emit e p = p\<lparr>trace := trace p @ [e]\<rparr>"

definition eel_expose :: "string \<Rightarrow> handler \<Rightarrow> page \<Rightarrow> page" where
  "eel_expose name h p = p\<lparr>exposed := (exposed p)(name \<mapsto> h)\<rparr>"

text \<open>A freshly navigated page: the session's store, the URL's parameters, the page's markup.\<close>

definition new_page :: "(string \<rightharpoonup> jsstring) \<Rightarrow> (string \<rightharpoonup> jsstring) \<Rightarrow> jsstring option \<Rightarrow> page" where
  "new_page store params lock =
     \<lparr>sessionStorage = store, searchParams = params, lockscreen = lock,
      exposed = Map.empty, listeners = [], timeLeft = 0, pending = 0, trace = []\<rparr>"

section \<open>global.js\<close>

text \<open>global.js:7-21.\<close>

definition trigger_emergency_mode_global :: "page \<Rightarrow> page" where
  "trigger_emergency_mode_global p =
     (let p1 = emit ConsoleWarn p;
          p2 = p1\<lparr>sessionStorage := (sessionStorage p1)(''lockdown'' \<mapsto> js ''true'')\<rparr>
      in case lockscreen p2 of
           Some _ \<Rightarrow> emit (Display ''lockscreen'' (js ''flex'')) (p2\<lparr>lockscreen := Some (js ''flex'')\<rparr>)
         | None \<Rightarrow> emit (Navigate (js ''lock.html'')) p2)"

text \<open>global.js:24-29, the body of the \<open>DOMContentLoaded\<close> listener.\<close>

definition lockdown_check :: "page \<Rightarrow> page" where
  "lockdown_check p =
     (if sessionStorage p ''lockdown'' = Some (js ''true'')
      then (case lockscreen p of
              Some _ \<Rightarrow> emit (Display ''lockscreen'' (js ''flex'')) (p\<lparr>lockscreen := Some (js ''flex'')\<rparr>)
            | None \<Rightarrow> p)
      else p)"

text \<open>global.js:32-37.\<close>

definition clearLock :: "page \<Rightarrow> page" where
  "clearLock p =
     (let p1 = p\<lparr>sessionStorage := (sessionStorage p)(''lockdown'' := None)\<rparr>
      in case lockscreen p1 of
           Some _ \<Rightarrow> emit (Display ''lockscreen'' (js ''none'')) (p1\<lparr>lockscreen := Some (js ''none'')\<rparr>)
         | None \<Rightarrow> p1)"

text \<open>The top level of global.js: expose the handler, register the listener.\<close>

definition global_js :: "page \<Rightarrow> page" where
  "global_js p =
     (let p1 = eel_expose ''trigger_emergency_mode'' GlobalEmergency p
      in p1\<lparr>listeners := listeners p1 @ [LockdownCheck]\<rparr>)"

section \<open>The page scripts' own emergency handler\<close>

text \<open>script.js:44-49 (and, with the same body, script.js:88-93, otp.js:95-100, balance script:16-21).\<close>

definition trigger_emergency_mode_page :: "page \<Rightarrow> page" where
  "trigger_emergency_mode_page p =
     (case lockscreen p of
        Some _ \<Rightarrow> emit (Display ''lockscreen'' (js ''flex'')) (p\<lparr>lockscreen := Some (js ''flex'')\<rparr>)
      | None \<Rightarrow> p)"

text \<open>
  The bridge calls the function registered last under the pushed name, so which body handles
  the \<open>trigger_emergency_mode\<close> push depends on the order in which the page loads its
  scripts.
\<close>

definition push_emergency :: "page \<Rightarrow> page" where
  "push_emergency p =
     (case exposed p ''trigger_emergency_mode'' of
        Some GlobalEmergency \<Rightarrow> trigger_emergency_mode_global p
      | Some PageEmergency \<Rightarrow> trigger_emergency_mode_page p
      | _ \<Rightarrow> p)"

section \<open>Loading a page\<close>

text \<open>
  A page load runs the top-level code of the page's scripts in document order and then
  dispatches \<open>DOMContentLoaded\<close> to the registered listeners.  The order of the script
  elements is given by the page's markup, which is a parameter here.
\<close>

definition run_listener :: "listener \<Rightarrow> page \<Rightarrow> page" where
  "run_listener l p = (case l of LockdownCheck \<Rightarrow> lockdown_check p)"

definition DOMContentLoaded :: "page \<Rightarrow> page" where
  "DOMContentLoaded p = fold run_listener (listeners p) p"

definition load_page :: "(page \<Rightarrow> page) list \<Rightarrow> page \<Rightarrow> page" where
  "load_page scripts p = DOMContentLoaded (fold (\<lambda>script q. script q) scripts p)"

section \<open>Numbers\<close>

text \<open>
  \<open>timeLeft\<close> is a JavaScript Number, a binary64 double, that only ever holds integers.  It
  is modelled by the integer it holds; every result of the source's arithmetic is rounded to
  the nearest double by \<open>toDouble\<close>.  \<open>None\<close> stands for \<open>NaN\<close>; \<open>-0\<close> is identified
  with \<open>0\<close> (both are falsy).  Integers of magnitude \<open>2^1024\<close> and more, which the source
  turns into \<open>Infinity\<close>, are outside the model.
\<close>

text \<open>The number of binary digits of a positive integer.\<close>

function bit_length :: "int \<Rightarrow> nat" where
  "bit_length m = (if m \<le> 0 then 0 else Suc (bit_length (m div 2)))"
  by pat_completeness auto
termination
  by (relation "measure nat") auto

declare bit_length.simps [simp del]

text \<open>
  The double nearest to an integer, ties to the even significand.  Below \<open>2^53\<close> every
  integer is a double.  From there on a double keeps the leading 53 binary digits: the other
  \<open>e\<close> digits are rounded off.
\<close>

definition toDouble :: "int \<Rightarrow> int" where
  "toDouble n =
     (if \<bar>n\<bar> < 2 ^ 53 then n
      else let m = \<bar>n\<bar>;
               e = bit_length m - 53;
               q = m div 2 ^ e;
               r = m mod 2 ^ e;
               up = (2 ^ e < 2 * r \<or> (2 * r = 2 ^ e \<and> odd q))
           in sgn n * ((if up then q + 1 else q) * 2 ^ e))"

definition digitValue :: "code_unit \<Rightarrow> nat option" where
  "digitValue c =
     (if 0x30 \<le> c \<and> c \<le> 0x39 then Some (unat c - 0x30)
      else if 0x61 \<le> c \<and> c \<le> 0x7A then Some (unat c - 0x61 + 10)
      else if 0x41 \<le> c \<and> c \<le> 0x5A then Some (unat c - 0x41 + 10)
      else None)"

definition isRadixDigit :: "nat \<Rightarrow> code_unit \<Rightarrow> bool" where
  "isRadixDigit R c = (case digitValue c of None \<Rightarrow> False | Some d \<Rightarrow> d < R)"

definition radixValue :: "nat \<Rightarrow> jsstring \<Rightarrow> nat" where
  "radixValue R Z = foldl (\<lambda>acc c. case digitValue c of None \<Rightarrow> acc | Some d \<Rightarrow> acc * R + d) 0 Z"

text \<open>
  \<open>parseInt(string)\<close> with no radix: skip leading white space, take a sign, strip a
  \<open>0x\<close>/\<open>0X\<close> prefix (radix 16, otherwise 10), read the longest prefix of digits; the
  result is the double nearest to the integer read.
\<close>

definition parseInt :: "jsstring \<Rightarrow> int option" where
  "parseInt inputString =
     (let S = trimStart inputString;
          sign = (if take 1 S = js ''-'' then - 1 else 1);
          S1 = (if take 1 S = js ''+'' \<or> take 1 S = js ''-'' then drop 1 S else S);
          hex = (take 2 S1 = js ''0x'' \<or> take 2 S1 = js ''0X'');
          R = (if hex then 16 else 10);
          S2 = (if hex then drop 2 S1 else S1);
          Z = takeWhile (isRadixDigit R) S2
      in if Z = [] then None else Some (toDouble (sign * int (radixValue R Z))))"

text \<open>
  \<open>Number::toString\<close> on an integer of magnitude up to \<open>2^53\<close>: its decimal digits, with
  a minus sign below zero.  (Above \<open>2^53\<close> the source prints the shortest digits that read
  back as the same double, and from \<open>10^21\<close> on the exponent form; every theorem below that
  speaks of a displayed number keeps to the range up to \<open>2^53\<close>.)
\<close>

fun decimalDigits :: "nat \<Rightarrow> jsstring" where
  "decimalDigits n =
     (if n < 10 then [0x30 + of_nat n]
      else decimalDigits (n div 10) @ [0x30 + of_nat (n mod 10)])"

declare decimalDigits.simps [simp del]

definition is_decimal_digit :: "code_unit \<Rightarrow> bool" where
  "is_decimal_digit c \<longleftrightarrow> (\<exists>d<10. c = 0x30 + of_nat d)"

definition numberToString :: "int \<Rightarrow> jsstring" where
  "numberToString n = (if n < 0 then js ''-'' @ decimalDigits (nat (- n)) else decimalDigits (nat n))"

section \<open>otp.js\<close>

text \<open>otp.js:4, \<open>parseInt(url.searchParams.get("t")) || 60\<close>: \<open>NaN\<close> and \<open>0\<close> are falsy.\<close>

definition initial_timeLeft :: "jsstring option \<Rightarrow> int" where
  "initial_timeLeft t =
     (case parseInt (toString t) of
        None \<Rightarrow> 60
      | Some n \<Rightarrow> if n = 0 then 60 else n)"

text \<open>
  otp.js:11-21.  The arc starts at \<open>-\<pi>/2\<close> and ends at \<open>-\<pi>/2 + p * 2\<pi>\<close> with
  \<open>p = timeLeft / 60\<close>, that is at \<open>-1/2\<close> and \<open>-1/2 + p * 2\<close> in units of \<open>\<pi>\<close>; the
  arithmetic is exact, not rounded to doubles.
\<close>

definition draw :: "page \<Rightarrow> page" where
  "draw p =
     (let pr = of_int (timeLeft p) / 60
      in emit (Arc (- 1 / 2) (- 1 / 2 + pr * 2)) p)"

text \<open>otp.js:23-32.\<close>

definition remaining_text :: "int \<Rightarrow> jsstring" where
  "remaining_text n = numberToString n @ js ''s remaining''"

definition expired_text :: jsstring where
  "expired_text = alarm_clock @ js '' OTP expired''"

definition tick :: "page \<Rightarrow> page" where
  "tick p =
     (let p1 = draw p;
          p2 = emit (InnerText ''countdown'' (remaining_text (timeLeft p1))) p1
      in if timeLeft p2 \<le> 0
         then emit (InnerText ''status'' expired_text) p2
         else emit SetTimeoutTick
                (p2\<lparr>timeLeft := toDouble (timeLeft p2 - 1), pending := Suc (pending p2)\<rparr>))"

text \<open>
  One second later a scheduled \<open>tick\<close> callback runs; when none is scheduled nothing runs.
\<close>

definition timer_fires :: "page \<Rightarrow> page" where
  "timer_fires p = (if pending p = 0 then p else tick (p\<lparr>pending := pending p - 1\<rparr>))"

primrec seconds_pass :: "nat \<Rightarrow> page \<Rightarrow> page" where
  "seconds_pass 0 p = p"
| "seconds_pass (Suc k) p = seconds_pass k (timer_fires p)"

text \<open>otp.js:36-44; the argument is the value of the \<open>otp\<close> input when the user submits.\<close>

definition submitOtp :: "jsstring \<Rightarrow> page \<Rightarrow> page" where
  "submitOtp otp_value p =
     (let val = trim otp_value
      in if val = [] \<or> length val \<noteq> 6
         then emit (InnerText ''status'' (warning_sign @ js '' Enter 6 digits'')) p
         else emit (Eel (VerifyOtp (searchParams p ''user'') val))
                (emit (InnerText ''status'' (js ''Verifying...'')) p))"

text \<open>otp.js:48-55.\<close>

definition otp_failed :: "jsstring \<Rightarrow> page \<Rightarrow> page" where
  "otp_failed msg p = emit (InnerText ''status'' msg) p"

definition redirect_main :: "jsstring \<Rightarrow> jsstring \<Rightarrow> page \<Rightarrow> page" where
  "redirect_main username status p =
     emit (Navigate (js ''mainmenu.html?user='' @ username @ js ''&status='' @ status)) p"

text \<open>
  The top level of otp.js: initialise \<open>timeLeft\<close>, call \<open>tick()\<close>, expose the handlers.
  The bubble animation (otp.js:57-92) only decorates the page and is left out.
\<close>

definition otp_js :: "page \<Rightarrow> page" where
  "otp_js p =
     (let p1 = p\<lparr>timeLeft := initial_timeLeft (searchParams p ''t'')\<rparr>;
          p2 = tick p1;
          p3 = eel_expose ''otp_failed'' OtpFailed p2;
          p4 = eel_expose ''redirect_main'' RedirectMain p3
      in eel_expose ''trigger_emergency_mode'' PageEmergency p4)"

text \<open>
  What can happen on the OTP page while it waits for the success push: the timer fires, the
  user submits the \<open>otp\<close> input, the backend pushes \<open>otp_failed\<close>.  (The success push
  \<open>redirect_main\<close> navigates away and ends the page.)
\<close>

datatype otp_event = TimerFires | Submits jsstring | FailurePush jsstring

definition otp_event_step :: "otp_event \<Rightarrow> page \<Rightarrow> page" where
  "otp_event_step ev p =
     (case ev of
        TimerFires \<Rightarrow> timer_fires p
      | Submits v \<Rightarrow> submitOtp v p
      | FailurePush msg \<Rightarrow> otp_failed msg p)"

definition run_events :: "otp_event list \<Rightarrow> page \<Rightarrow> page" where
  "run_events evs p = fold otp_event_step evs p"

section \<open>script.js, the login page\<close>

text \<open>
  script.js:1-7; the arguments are the values of the \<open>user\<close> and \<open>pass\<close> inputs.  A string
  is falsy exactly when it is empty.
\<close>

definition login :: "jsstring \<Rightarrow> jsstring \<Rightarrow> page \<Rightarrow> page" where
  "login user_value pass_value p =
     (let user = trim user_value;
          pass = trim pass_value
      in if user = [] \<or> pass = []
         then emit (InnerText ''status'' (warning_sign @ js '' Enter username & password'')) p
         else emit (Eel (Login user pass))
                (emit (InnerText ''status'' (js ''Authenticating...'')) p))"

text \<open>script.js:9-14.\<close>

definition show_status :: "jsstring \<Rightarrow> page \<Rightarrow> page" where
  "show_status msg p = emit (InnerText ''status'' msg) p"

definition redirect_otp :: "jsstring \<Rightarrow> jsstring \<Rightarrow> jsstring \<Rightarrow> page \<Rightarrow> page" where
  "redirect_otp username status timer p =
     emit (Navigate (js ''otp.html?user='' @ username @ js ''&status='' @ status
                       @ js ''&t='' @ timer)) p"

text \<open>
  The top level of the login script: expose the handlers (the bubble animation of
  script.js:16-39 is left out).
\<close>

definition login_js :: "page \<Rightarrow> page" where
  "login_js p =
     (let p1 = eel_expose ''show_status'' ShowStatus p;
          p2 = eel_expose ''redirect_otp'' RedirectOtp p1
      in eel_expose ''trigger_emergency_mode'' PageEmergency p2)"

section \<open>script.js, the main menu\<close>

text \<open>
  \<open>String.prototype.toLowerCase\<close>, on the letters A to Z.  Code points outside ASCII are
  left as they are here; none of them lower-cases to one of the letters of \<open>staff\<close>, so
  the comparison of script.js:58 is not affected.
\<close>

definition toLowerCase :: "jsstring \<Rightarrow> jsstring" where
  "toLowerCase s = map (\<lambda>c. if 0x41 \<le> c \<and> c \<le> 0x5A then c + 0x20 else c) s"

text \<open>
  What the script writes into the \<open>menu\<close> element (script.js:55-69): a heading, a subtitle
  and a row of buttons, each with its caption and its \<open>onclick\<close> call if it has one.

  The script builds the menu as an HTML string and puts the \<open>user\<close> parameter into it as it
  comes from the URL, unescaped.  A value without \<open><\<close> can only be text of the heading.  A
  value with \<open><\<close> is markup of the URL's making, which the browser parses into the menu
  along with the script's own (it can bring buttons of its own): what the menu then holds is
  decided by the browser's HTML parser and not by the script, and the result is \<open>None\<close>.
\<close>

definition holds_markup :: "jsstring \<Rightarrow> bool" where
  "holds_markup s \<longleftrightarrow> 0x3C \<in> set s"

datatype action = ToggleMaintenanceCall bool | LogoutCall | CheckBalanceCall

type_synonym button = "string \<times> action option"

record menu =
  heading :: jsstring
  subtitle :: jsstring
  buttons :: "button list"

text \<open>script.js:52.\<close>

definition menu_status :: "(string \<rightharpoonup> jsstring) \<Rightarrow> jsstring" where
  "menu_status params = toLowerCase (or_default (params ''status'') (js ''customer''))"

definition render_menu :: "(string \<rightharpoonup> jsstring) \<Rightarrow> menu option" where
  "render_menu params =
     (let user = params ''user'';
          status = menu_status params
      in if holds_markup (toString user) then None
         else Some
           \<lparr>heading = js ''Welcome, '' @ toString user,
            subtitle = (if status = js ''staff'' then js ''Staff Access Panel''
                        else js ''Customer Access Panel''),
            buttons = (if status = js ''staff''
                       then [(''Enable Maintenance'', Some (ToggleMaintenanceCall True)),
                             (''Disable Maintenance'', Some (ToggleMaintenanceCall False)),
                             (''Logout'', Some LogoutCall)]
                       else [(''Check Balance'', Some CheckBalanceCall),
                             (''Withdraw'', None),
                             (''Deposit'', None),
                             (''Logout'', Some LogoutCall)])\<rparr>)"

text \<open>script.js:71.\<close>

definition logout :: "page \<Rightarrow> page" where
  "logout p = emit (Navigate (js ''index.html'')) p"

text \<open>
  script.js:74-77, in its two halves: the request, and the continuation once the backend has
  answered; \<open>bal\<close> is the answer as the template literal prints it.
\<close>

definition checkBalance_request :: "page \<Rightarrow> page" where
  "checkBalance_request p = emit (Eel (GetBalance (searchParams p ''user''))) p"

definition checkBalance_resolved :: "jsstring \<Rightarrow> page \<Rightarrow> page" where
  "checkBalance_resolved bal p =
     emit (Navigate (js ''balance.html?user='' @ toString (searchParams p ''user'')
                       @ js ''&status='' @ menu_status (searchParams p)
                       @ js ''&bal='' @ bal)) p"

text \<open>
  script.js:80-85: the push navigates to the balance page without a \<open>bal\<close> parameter and
  leaves a callback behind that is to write the amount 300 ms later.
\<close>

definition show_balance :: "jsstring \<Rightarrow> jsstring \<Rightarrow> page \<Rightarrow> page" where
  "show_balance user amount p =
     emit (SetTimeoutBalance (js ''RM '' @ amount))
       (emit (Navigate (js ''balance.html?user='' @ user @ js ''&status=customer'')) p)"

section \<open>The balance page\<close>

text \<open>
  \<open>parseFloat(string)\<close> skips leading white space and reads the longest prefix that is a
  decimal literal (ECMAScript StrDecimalLiteral: a sign, then \<open>Infinity\<close> or digits with an
  optional fraction and an optional exponent); without such a prefix the result is \<open>NaN\<close>.
  Which prefix is read is a matter of syntax and is modelled here: \<open>None\<close> is \<open>NaN\<close>,
  \<open>Some literal\<close> is the Number that the runtime reads from that literal.  The value of the
  literal as a double, and what \<open>toFixed(2)\<close> prints for it, is floating-point arithmetic of
  the runtime: it is the parameter \<open>toFixed2\<close> below.
\<close>

definition isDecimalDigit :: "code_unit \<Rightarrow> bool" where
  "isDecimalDigit c \<longleftrightarrow> 0x30 \<le> c \<and> c \<le> 0x39"

definition exponentPart :: "jsstring \<Rightarrow> jsstring" where
  "exponentPart s =
     (if take 1 s = js ''e'' \<or> take 1 s = js ''E''
      then let rest = drop 1 s;
               sgn = (if take 1 rest = js ''+'' \<or> take 1 rest = js ''-'' then take 1 rest else []);
               ds = takeWhile isDecimalDigit (drop (length sgn) rest)
           in if ds = [] then [] else take 1 s @ sgn @ ds
      else [])"

definition strDecimalLiteral :: "jsstring \<Rightarrow> jsstring option" where
  "strDecimalLiteral s =
     (let sgn = (if take 1 s = js ''+'' \<or> take 1 s = js ''-'' then take 1 s else []);
          u = drop (length sgn) s
      in if take 8 u = js ''Infinity'' then Some (sgn @ js ''Infinity'')
         else let ip = takeWhile isDecimalDigit u;
                  u1 = drop (length ip) u;
                  fp = (if take 1 u1 = js ''.'' then takeWhile isDecimalDigit (drop 1 u1) else []);
                  dot = (if take 1 u1 = js ''.'' then js ''.'' else []);
                  mant = ip @ dot @ fp
              in if ip = [] \<and> fp = [] then None
                 else Some (sgn @ mant @ exponentPart (drop (length mant) u)))"

definition parseFloat :: "jsstring \<Rightarrow> jsstring option" where
  "parseFloat inputString = strDecimalLiteral (trimStart inputString)"

text \<open>
  Balance script:6-9.  \<open>NaN.toFixed(2)\<close> is the string \<open>NaN\<close>.
\<close>

definition balance_text :: "(jsstring \<Rightarrow> jsstring) \<Rightarrow> jsstring option \<Rightarrow> jsstring" where
  "balance_text toFixed2 bal =
     (if bal = Some (js ''Error'') then js ''Error retrieving balance''
      else js ''RM '' @ (case parseFloat (toString bal) of
                            None \<Rightarrow> js ''NaN''
                          | Some literal \<Rightarrow> toFixed2 literal))"

text \<open>The top level of the balance script: write the text, expose the handler.\<close>

definition balance_js :: "(jsstring \<Rightarrow> jsstring) \<Rightarrow> page \<Rightarrow> page" where
  "balance_js toFixed2 p =
     (let p1 = emit (InnerText ''balance-amount''
                       (balance_text toFixed2 (searchParams p ''bal''))) p
      in eel_expose ''trigger_emergency_mode'' PageEmergency p1)"

text \<open>Balance script:11-13.\<close>

definition goBack :: "page \<Rightarrow> page" where
  "goBack p =
     emit (Navigate (js ''mainmenu.html?user='' @ toString (searchParams p ''user'')
                       @ js ''&status='' @ toString (searchParams p ''status''))) p"

section \<open>Reading a trace\<close>

text \<open>The texts written to one element, and the bridge requests, in the order they happened.\<close>

definition texts_of :: "string \<Rightarrow> effect list \<Rightarrow> jsstring list" where
  "texts_of ident tr =
     concat (map (\<lambda>e. case e of InnerText i t \<Rightarrow> if i = ident then [t] else [] | _ \<Rightarrow> []) tr)"

definition calls_of :: "effect list \<Rightarrow> bridge_call list" where
  "calls_of tr = concat (map (\<lambda>e. case e of Eel c \<Rightarrow> [c] | _ \<Rightarrow> []) tr)"

definition navigations_of :: "effect list \<Rightarrow> jsstring list" where
  "navigations_of tr = concat (map (\<lambda>e. case e of Navigate u \<Rightarrow> [u] | _ \<Rightarrow> []) tr)"

definition timeouts_of :: "effect list \<Rightarrow> nat" where
  "timeouts_of tr = length (filter (\<lambda>e. e = SetTimeoutTick) tr)"


definition arcs_of :: "effect list \<Rightarrow> effect list" where
  "arcs_of tr = filter (\<lambda>e. case e of Arc a b \<Rightarrow> True | _ \<Rightarrow> False) tr"

section \<open>The effects of one tick and of a whole countdown\<close>

text \<open>What one call of \<open>tick\<close> appends to the trace when \<open>timeLeft\<close> is \<open>m\<close>.\<close>

definition tick_trace :: "int \<Rightarrow> effect list" where
  "tick_trace m =
     [Arc (- 1 / 2) (- 1 / 2 + of_int m / 60 * 2),
      InnerText ''countdown'' (remaining_text m),
      if m \<le> 0 then InnerText ''status'' expired_text else SetTimeoutTick]"

text \<open>The ticks for \<open>n\<close>, \<open>n - 1\<close>, ..., \<open>0\<close> seconds, one after the other.\<close>

primrec countdown_trace :: "nat \<Rightarrow> effect list" where
  "countdown_trace 0 = tick_trace 0"
| "countdown_trace (Suc n) = tick_trace (int (Suc n)) @ countdown_trace n"

section \<open>Basic facts\<close>

lemma trace_emit [simp]: "trace (emit e p) = trace p @ [e]"
  by (simp add: emit_def)

lemma calls_of_append [simp]: "calls_of (xs @ ys) = calls_of xs @ calls_of ys"
  by (simp add: calls_of_def)

lemma navigations_of_append [simp]:
  "navigations_of (xs @ ys) = navigations_of xs @ navigations_of ys"
  by (simp add: navigations_of_def)

lemma texts_of_append [simp]: "texts_of i (xs @ ys) = texts_of i xs @ texts_of i ys"
  by (simp add: texts_of_def)

lemma arcs_of_append [simp]: "arcs_of (xs @ ys) = arcs_of xs @ arcs_of ys"
  by (simp add: arcs_of_def)

lemma timeouts_of_append [simp]: "timeouts_of (xs @ ys) = timeouts_of xs + timeouts_of ys"
  by (simp add: timeouts_of_def)

lemma calls_of_simps [simp]:
  "calls_of [] = []"
  "calls_of (Eel c # tr) = c # calls_of tr"
  "calls_of (InnerText i t # tr) = calls_of tr"
  "calls_of (Display i t # tr) = calls_of tr"
  "calls_of (Arc a b # tr) = calls_of tr"
  "calls_of (Navigate u # tr) = calls_of tr"
  "calls_of (SetTimeoutTick # tr) = calls_of tr"
  "calls_of (SetTimeoutBalance t # tr) = calls_of tr"
  "calls_of (ConsoleWarn # tr) = calls_of tr"
  by (simp_all add: calls_of_def)

lemma navigations_of_simps [simp]:
  "navigations_of [] = []"
  "navigations_of (Eel c # tr) = navigations_of tr"
  "navigations_of (InnerText i t # tr) = navigations_of tr"
  "navigations_of (Display i t # tr) = navigations_of tr"
  "navigations_of (Arc a b # tr) = navigations_of tr"
  "navigations_of (Navigate u # tr) = u # navigations_of tr"
  "navigations_of (SetTimeoutTick # tr) = navigations_of tr"
  "navigations_of (SetTimeoutBalance t # tr) = navigations_of tr"
  "navigations_of (ConsoleWarn # tr) = navigations_of tr"
  by (simp_all add: navigations_of_def)

lemma texts_of_simps [simp]:
  "texts_of i [] = []"
  "texts_of i (Eel c # tr) = texts_of i tr"
  "texts_of i (InnerText j t # tr) = (if j = i then t # texts_of i tr else texts_of i tr)"
  "texts_of i (Display j t # tr) = texts_of i tr"
  "texts_of i (Arc a b # tr) = texts_of i tr"
  "texts_of i (Navigate u # tr) = texts_of i tr"
  "texts_of i (SetTimeoutTick # tr) = texts_of i tr"
  "texts_of i (SetTimeoutBalance t # tr) = texts_of i tr"
  "texts_of i (ConsoleWarn # tr) = texts_of i tr"
  by (simp_all add: texts_of_def)

lemma arcs_of_simps [simp]:
  "arcs_of [] = []"
  "arcs_of (Eel c # tr) = arcs_of tr"
  "arcs_of (InnerText j t # tr) = arcs_of tr"
  "arcs_of (Display j t # tr) = arcs_of tr"
  "arcs_of (Arc a b # tr) = Arc a b # arcs_of tr"
  "arcs_of (Navigate u # tr) = arcs_of tr"
  "arcs_of (SetTimeoutTick # tr) = arcs_of tr"
  "arcs_of (SetTimeoutBalance t # tr) = arcs_of tr"
  "arcs_of (ConsoleWarn # tr) = arcs_of tr"
  by (simp_all add: arcs_of_def)

lemma timeouts_of_simps [simp]:
  "timeouts_of [] = 0"
  "timeouts_of (Eel c # tr) = timeouts_of tr"
  "timeouts_of (InnerText j t # tr) = timeouts_of tr"
  "timeouts_of (Display j t # tr) = timeouts_of tr"
  "timeouts_of (Arc a b # tr) = timeouts_of tr"
  "timeouts_of (Navigate u # tr) = timeouts_of tr"
  "timeouts_of (SetTimeoutTick # tr) = Suc (timeouts_of tr)"
  "timeouts_of (SetTimeoutBalance t # tr) = timeouts_of tr"
  "timeouts_of (ConsoleWarn # tr) = timeouts_of tr"
  by (simp_all add: timeouts_of_def)

subsection \<open>The countdown\<close>

lemma toDouble_exact: "\<bar>n\<bar> < 2 ^ 53 \<Longrightarrow> toDouble n = n"
  by (simp add: toDouble_def)

lemma tick_positive:
  "0 < timeLeft p \<Longrightarrow>
   tick p = p\<lparr>timeLeft := toDouble (timeLeft p - 1), pending := Suc (pending p),
             trace := trace p @ tick_trace (timeLeft p)\<rparr>"
  by (simp add: tick_def draw_def emit_def tick_trace_def Let_def)

lemma tick_expired:
  "timeLeft p \<le> 0 \<Longrightarrow> tick p = p\<lparr>trace := trace p @ tick_trace (timeLeft p)\<rparr>"
  by (simp add: tick_def draw_def emit_def tick_trace_def Let_def)

lemma seconds_pass_idle: "pending p = 0 \<Longrightarrow> seconds_pass k p = p"
  by (induction k) (simp_all add: timer_fires_def)

lemma countdown_runs_out:
  "pending p = 1 \<Longrightarrow> timeLeft p = int n \<Longrightarrow> int n < 2 ^ 53 \<Longrightarrow>
   seconds_pass (Suc n + j) p =
     p\<lparr>timeLeft := 0, pending := 0, trace := trace p @ countdown_trace n\<rparr>"
proof (induction n arbitrary: p)
  case 0
  then have "timer_fires p = p\<lparr>pending := 0, trace := trace p @ tick_trace 0\<rparr>"
    by (simp add: timer_fires_def tick_expired)
  moreover have "seconds_pass j (p\<lparr>pending := 0, trace := trace p @ tick_trace 0\<rparr>)
                   = p\<lparr>pending := 0, trace := trace p @ tick_trace 0\<rparr>"
    by (rule seconds_pass_idle) simp
  ultimately show ?case using 0 by simp
next
  case (Suc n)
  let ?q = "p\<lparr>timeLeft := int n, pending := 1, trace := trace p @ tick_trace (int (Suc n))\<rparr>"
  from Suc.prems have fire: "timer_fires p = ?q"
    by (simp add: timer_fires_def tick_positive toDouble_exact)
  have "seconds_pass (Suc n + j) ?q =
          ?q\<lparr>timeLeft := 0, pending := 0, trace := trace ?q @ countdown_trace n\<rparr>"
    using Suc.prems by (intro Suc.IH) simp_all
  with fire show ?case by simp
qed

lemma texts_countdown_tick [simp]:
  "texts_of ''countdown'' (tick_trace m) = [remaining_text m]"
  by (simp add: tick_trace_def)

lemma texts_status_tick [simp]:
  "texts_of ''status'' (tick_trace m) = (if m \<le> 0 then [expired_text] else [])"
  by (simp add: tick_trace_def)

lemma timeouts_tick [simp]:
  "timeouts_of (tick_trace m) = (if m \<le> 0 then 0 else 1)"
  by (simp add: tick_trace_def)

lemma calls_tick [simp]: "calls_of (tick_trace m) = []"
  by (simp add: tick_trace_def)

lemma texts_countdown_trace:
  "texts_of ''countdown'' (countdown_trace n) = map remaining_text (rev [0..int n])"
proof (induction n)
  case 0
  show ?case by simp
next
  case (Suc n)
  have "[0..int (Suc n)] = [0..int n] @ [int (Suc n)]"
    by (simp add: upto_rec2)
  with Suc show ?case by simp
qed

lemma texts_status_trace: "texts_of ''status'' (countdown_trace n) = [expired_text]"
  by (induction n) simp_all

lemma timeouts_countdown_trace: "timeouts_of (countdown_trace n) = n"
  by (induction n) simp_all

lemma calls_countdown_trace: "calls_of (countdown_trace n) = []"
  by (induction n) simp_all

lemma otp_js_state:
  "otp_js p = (tick (p\<lparr>timeLeft := initial_timeLeft (searchParams p ''t'')\<rparr>))
     \<lparr>exposed := (exposed p)(''otp_failed'' \<mapsto> OtpFailed, ''redirect_main'' \<mapsto> RedirectMain,
                              ''trigger_emergency_mode'' \<mapsto> PageEmergency)\<rparr>"
  by (simp add: otp_js_def Let_def eel_expose_def tick_def draw_def emit_def)

lemma otp_page_expired:
  assumes N: "1 \<le> N" and bound: "N \<le> 2 ^ 53"
    and seed: "initial_timeLeft (params ''t'') = N" and k: "nat N \<le> k"
  shows "seconds_pass k (otp_js (new_page store params lock)) =
           (otp_js (new_page store params lock))
             \<lparr>timeLeft := 0, pending := 0, trace := countdown_trace (nat N)\<rparr>"
proof -
  let ?p0 = "new_page store params lock"
  define n where "n = nat (N - 1)"
  define j where "j = k - Suc n"
  have n: "N = int (Suc n)"
    using N by (simp add: n_def)
  have j: "k = Suc n + j"
    using k n by (simp add: j_def)
  have start: "pending (otp_js ?p0) = 1" "timeLeft (otp_js ?p0) = int n"
    "trace (otp_js ?p0) = tick_trace N"
    using n seed bound by (simp_all add: otp_js_state tick_positive new_page_def toDouble_exact)
  have "nat N = Suc n"
    using n by simp
  then have whole: "countdown_trace (nat N) = tick_trace N @ countdown_trace n"
    using n by simp
  have "seconds_pass (Suc n + j) (otp_js ?p0) =
          (otp_js ?p0)\<lparr>timeLeft := 0, pending := 0,
                          trace := trace (otp_js ?p0) @ countdown_trace n\<rparr>"
    using start(1) start(2) n bound by (intro countdown_runs_out) simp_all
  then show ?thesis
    unfolding j start(3) whole .
qed

subsection \<open>Evaluating the string functions\<close>

lemmas string_eval =
  js_def trim_def trimStart_def trimEnd_def isWhiteSpace_def toString_def
  warning_sign_def alarm_clock_def

lemmas number_eval =
  initial_timeLeft_def parseInt_def isRadixDigit_def digitValue_def radixValue_def
  remaining_text_def numberToString_def decimalDigits.simps toDouble_exact Let_def

subsection \<open>Pages and scripts\<close>

lemma new_page_fields [simp]:
  "sessionStorage (new_page store params lock) = store"
  "searchParams (new_page store params lock) = params"
  "lockscreen (new_page store params lock) = lock"
  "exposed (new_page store params lock) = Map.empty"
  "listeners (new_page store params lock) = []"
  "timeLeft (new_page store params lock) = 0"
  "pending (new_page store params lock) = 0"
  "trace (new_page store params lock) = []"
  by (simp_all add: new_page_def)

lemma otp_js_keeps [simp]:
  "sessionStorage (otp_js p) = sessionStorage p"
  "lockscreen (otp_js p) = lockscreen p"
  "listeners (otp_js p) = listeners p"
  "searchParams (otp_js p) = searchParams p"
  by (simp_all add: otp_js_def tick_def draw_def emit_def eel_expose_def Let_def)

lemma global_js_keeps [simp]:
  "sessionStorage (global_js p) = sessionStorage p"
  "lockscreen (global_js p) = lockscreen p"
  "listeners (global_js p) = listeners p @ [LockdownCheck]"
  "searchParams (global_js p) = searchParams p"
  "trace (global_js p) = trace p"
  "timeLeft (global_js p) = timeLeft p"
  "pending (global_js p) = pending p"
  by (simp_all add: global_js_def eel_expose_def Let_def)

lemma otp_js_trace:
  "0 < initial_timeLeft (searchParams p ''t'') \<Longrightarrow>
   trace (otp_js p) = trace p @ tick_trace (initial_timeLeft (searchParams p ''t''))"
  by (simp add: otp_js_state tick_positive)

lemma tick_appends: "trace (tick p) = trace p @ tick_trace (timeLeft p)"
  by (cases "0 < timeLeft p") (simp_all add: tick_positive tick_expired)

lemma arcs_tick [simp]:
  "arcs_of (tick_trace m) = [Arc (- 1 / 2) (- 1 / 2 + of_int m / 60 * 2)]"
  by (simp add: tick_trace_def)

lemma global_handler_sets_flag:
  "sessionStorage (trigger_emergency_mode_global p) ''lockdown'' = Some (js ''true'')"
  by (simp add: trigger_emergency_mode_global_def emit_def Let_def split: option.splits)

lemma submitOtp_six:
  "length (trim v) = 6 \<Longrightarrow>
   trace (submitOtp v p) = trace p @ [InnerText ''status'' (js ''Verifying...''),
                                      Eel (VerifyOtp (searchParams p ''user'') (trim v))]"
  by (auto simp add: submitOtp_def Let_def)

lemma submitOtp_not_six:
  "length (trim v) \<noteq> 6 \<Longrightarrow>
   trace (submitOtp v p)
     = trace p @ [InnerText ''status'' (warning_sign @ js '' Enter 6 digits'')]"
  by (auto simp add: submitOtp_def Let_def)

lemma menu_status_staff_iff:
  "menu_status params = js ''staff''
     \<longleftrightarrow> (\<exists>s. params ''status'' = Some s \<and> toLowerCase s = js ''staff'')"
  by (auto simp add: menu_status_def or_default_def toLowerCase_def js_def split: option.splits)

subsection \<open>Decimal numerals\<close>

text \<open>
  \<open>parseInt\<close> reads back what \<open>Number::toString\<close> writes: every seed \<open>N \<ge> 1\<close> reaches
  \<open>timeLeft\<close> when the URL carries it in decimal.
\<close>

lemma digit_cases: "d < 10 \<Longrightarrow> d \<in> {0, 1, 2, 3, 4, 5, 6, 7, 8, 9::nat}"
  by auto

lemma digit_char:
  assumes "d < 10"
  shows "digitValue (0x30 + of_nat d) = Some d"
    and "\<not> isWhiteSpace (0x30 + of_nat d)"
    and "(0x30 + of_nat d :: code_unit) \<noteq> 0x2B"
    and "(0x30 + of_nat d :: code_unit) \<noteq> 0x2D"
    and "(0x30 + of_nat d :: code_unit) \<noteq> 0x78"
    and "(0x30 + of_nat d :: code_unit) \<noteq> 0x58"
  using digit_cases [OF assms]
  by (auto simp add: digitValue_def isWhiteSpace_def)

lemma decimalDigits_all: "list_all is_decimal_digit (decimalDigits n)"
proof (induction n rule: decimalDigits.induct)
  case (1 n)
  show ?case
  proof (cases "n < 10")
    case True
    then show ?thesis
      by (subst decimalDigits.simps) (auto simp add: is_decimal_digit_def)
  next
    case False
    have "n mod 10 < 10" by simp
    then have "is_decimal_digit (0x30 + of_nat (n mod 10))"
      unfolding is_decimal_digit_def by blast
    with False 1 show ?thesis
      by (subst decimalDigits.simps) simp
  qed
qed

lemma decimalDigits_not_Nil: "decimalDigits n \<noteq> []"
  by (subst decimalDigits.simps) simp

lemma radixValue_snoc:
  "radixValue R (Z @ [c]) = (case digitValue c of None \<Rightarrow> radixValue R Z
                              | Some d \<Rightarrow> radixValue R Z * R + d)"
  by (simp add: radixValue_def split: option.splits)

lemma radixValue_decimalDigits: "radixValue 10 (decimalDigits n) = n"
proof (induction n rule: decimalDigits.induct)
  case (1 n)
  show ?case
  proof (cases "n < 10")
    case True
    then show ?thesis
      by (subst decimalDigits.simps) (simp add: radixValue_def digit_char)
  next
    case False
    have "n mod 10 < 10" by simp
    then have "digitValue (0x30 + of_nat (n mod 10)) = Some (n mod 10)"
      by (rule digit_char)
    with False 1 show ?thesis
      by (subst decimalDigits.simps) (simp add: radixValue_snoc)
  qed
qed

lemma parseInt_decimalDigits: "parseInt (decimalDigits n) = Some (toDouble (int n))"
proof -
  let ?ds = "decimalDigits n"
  have all: "list_all is_decimal_digit ?ds"
    by (rule decimalDigits_all)
  obtain c cs where ds: "?ds = c # cs"
    using decimalDigits_not_Nil [of n] by (cases ?ds) auto
  have c: "is_decimal_digit c" and cs: "list_all is_decimal_digit cs"
    using all ds by simp_all
  have c_facts: "\<not> isWhiteSpace c" "c \<noteq> 0x2B" "c \<noteq> 0x2D"
    using c by (auto simp add: is_decimal_digit_def digit_char)
  have no_x: "x \<noteq> 0x78 \<and> x \<noteq> 0x58" if "is_decimal_digit x" for x
    using that by (auto simp add: is_decimal_digit_def digit_char)
  have radix: "isRadixDigit 10 x" if "is_decimal_digit x" for x
    using that by (auto simp add: is_decimal_digit_def isRadixDigit_def digit_char)
  have trim: "trimStart (c # cs) = c # cs"
    using c_facts by (simp add: trimStart_def)
  have sign: "take 1 (c # cs) \<noteq> js ''+''" "take 1 (c # cs) \<noteq> js ''-''"
    using c_facts by (simp_all add: js_def)
  have hex: "take 2 (c # cs) \<noteq> js ''0x'' \<and> take 2 (c # cs) \<noteq> js ''0X''"
  proof (cases cs)
    case Nil
    then show ?thesis by (simp add: js_def)
  next
    case (Cons x xs)
    with cs have "is_decimal_digit x" by simp
    then have "x \<noteq> 0x78 \<and> x \<noteq> 0x58" by (rule no_x)
    with Cons show ?thesis by (simp add: js_def)
  qed
  have "\<forall>x\<in>set (c # cs). isRadixDigit 10 x"
    using all radix unfolding ds list_all_iff by blast
  then have whole: "takeWhile (isRadixDigit 10) (c # cs) = c # cs"
    by (simp only: takeWhile_eq_all_conv)
  have val: "radixValue 10 (c # cs) = n"
    using radixValue_decimalDigits [of n] unfolding ds .
  have "parseInt (c # cs) = Some (toDouble (int n))"
    unfolding parseInt_def Let_def trim using sign hex
    by (simp only: if_False simp_thms whole val list.simps) simp
  then show ?thesis
    unfolding ds .
qed

lemma seed_of_decimal:
  "1 \<le> N \<Longrightarrow> N < 2 ^ 53 \<Longrightarrow> initial_timeLeft (Some (numberToString N)) = N"
  by (simp add: initial_timeLeft_def toString_def numberToString_def parseInt_decimalDigits
      toDouble_exact)

subsection \<open>Concrete values\<close>

lemma seed_values:
  "initial_timeLeft (Some (js ''1'')) = 1"
  "initial_timeLeft (Some (js ''2'')) = 2"
  "initial_timeLeft (Some (js ''5'')) = 5"
  "initial_timeLeft (Some (js ''30'')) = 30"
  "initial_timeLeft (Some (js ''60'')) = 60"
  by (simp_all add: number_eval string_eval)

lemma parseInt_values:
  "parseInt (js ''null'') = None"
  "parseInt (js ''abc'') = None"
  "parseInt (js ''0'') = Some 0"
  by (simp_all add: number_eval string_eval)

lemma remaining_text_values:
  "remaining_text 0 = js ''0s remaining''"
  "remaining_text 1 = js ''1s remaining''"
  "remaining_text 2 = js ''2s remaining''"
  "remaining_text 5 = js ''5s remaining''"
  "remaining_text 60 = js ''60s remaining''"
  by (simp_all add: number_eval string_eval)

lemma trim_values:
  "trim (js ''123456'') = js ''123456''"
  "trim (js '' 123456 '') = js ''123456''"
  "trim (js ''12345 '') = js ''12345''"
  "trim (js '' alice'') = js ''alice''"
  "trim (js ''pw1 '') = js ''pw1''"
  "trim (js ''   '') = []"
  by (simp_all add: string_eval)

lemma length_values:
  "length (js ''123456'') = 6"
  "length (js '' 123456 '') = 8"
  "length (js ''12345'') = 5"
  "length (js ''12345 '') = 6"
  by (simp_all add: js_def)

lemma toLowerCase_values:
  "toLowerCase (js ''STAFF'') = js ''staff''"
  "toLowerCase (js ''Staff'') = js ''staff''"
  by (simp_all add: toLowerCase_def js_def)

subsection \<open>Events on the OTP page\<close>

lemma run_events_simps [simp]:
  "run_events [] p = p"
  "run_events (ev # evs) p = run_events evs (otp_event_step ev p)"
  "run_events (xs @ ys) p = run_events ys (run_events xs p)"
  by (simp_all add: run_events_def)

lemma status_texts_differ:
  "js ''Verifying...'' \<noteq> expired_text"
  "warning_sign @ js '' Enter 6 digits'' \<noteq> expired_text"
  by (simp_all add: expired_text_def string_eval)

lemma submitOtp_fields [simp]:
  "timeLeft (submitOtp v p) = timeLeft p"
  "pending (submitOtp v p) = pending p"
  "texts_of ''countdown'' (trace (submitOtp v p)) = texts_of ''countdown'' (trace p)"
  "timeouts_of (trace (submitOtp v p)) = timeouts_of (trace p)"
  "count_list (texts_of ''status'' (trace (submitOtp v p))) expired_text
     = count_list (texts_of ''status'' (trace p)) expired_text"
  by (simp_all add: submitOtp_def Let_def emit_def status_texts_differ)

lemma otp_failed_fields [simp]:
  "timeLeft (otp_failed msg p) = timeLeft p"
  "pending (otp_failed msg p) = pending p"
  "texts_of ''countdown'' (trace (otp_failed msg p)) = texts_of ''countdown'' (trace p)"
  "timeouts_of (trace (otp_failed msg p)) = timeouts_of (trace p)"
  "count_list (texts_of ''status'' (trace (otp_failed msg p))) expired_text
     = count_list (texts_of ''status'' (trace p)) expired_text
       + (if msg = expired_text then 1 else 0)"
  by (simp_all add: otp_failed_def emit_def)

lemma quiet_events:
  assumes "pending p = 0 \<or> TimerFires \<notin> set evs"
  shows "timeLeft (run_events evs p) = timeLeft p
       \<and> pending (run_events evs p) = pending p
       \<and> texts_of ''countdown'' (trace (run_events evs p)) = texts_of ''countdown'' (trace p)
       \<and> timeouts_of (trace (run_events evs p)) = timeouts_of (trace p)
       \<and> count_list (texts_of ''status'' (trace (run_events evs p))) expired_text
           = count_list (texts_of ''status'' (trace p)) expired_text
             + count_list evs (FailurePush expired_text)"
  using assms
proof (induction evs arbitrary: p)
  case Nil
  show ?case by simp
next
  case (Cons ev evs)
  show ?case
  proof (cases ev)
    case TimerFires
    with Cons.prems have idle: "pending p = 0" by simp
    then have "otp_event_step ev p = p"
      by (simp add: TimerFires otp_event_step_def timer_fires_def)
    with Cons.IH [of p] idle TimerFires show ?thesis by simp
  next
    case (Submits v)
    have "pending (submitOtp v p) = 0 \<or> TimerFires \<notin> set evs"
      using Cons.prems by auto
    from Cons.IH [OF this] Submits show ?thesis
      by (simp add: otp_event_step_def)
  next
    case (FailurePush msg)
    have "pending (otp_failed msg p) = 0 \<or> TimerFires \<notin> set evs"
      using Cons.prems by auto
    from Cons.IH [OF this] FailurePush show ?thesis
      by (simp add: otp_event_step_def)
  qed
qed


lemma countdown_under_events:
  assumes "pending p = 1" and "timeLeft p = int n" and "int n < 2 ^ 53"
    and "n < count_list evs TimerFires"
  shows "timeLeft (run_events evs p) = 0
       \<and> pending (run_events evs p) = 0
       \<and> texts_of ''countdown'' (trace (run_events evs p))
           = texts_of ''countdown'' (trace p) @ map remaining_text (rev [0..int n])
       \<and> timeouts_of (trace (run_events evs p)) = timeouts_of (trace p) + n
       \<and> count_list (texts_of ''status'' (trace (run_events evs p))) expired_text
           = count_list (texts_of ''status'' (trace p)) expired_text + 1
             + count_list evs (FailurePush expired_text)"
  using assms
proof (induction n arbitrary: p evs)
  case 0
  have "TimerFires \<in> set evs"
  proof (rule ccontr)
    assume "TimerFires \<notin> set evs"
    then have "count_list evs TimerFires = 0" by simp
    with "0.prems"(4) show False by simp
  qed
  then obtain pre rest where evs: "evs = pre @ TimerFires # rest" and pre: "TimerFires \<notin> set pre"
    by (auto dest: split_list_first)
  let ?p1 = "run_events pre p"
  have p1: "timeLeft ?p1 = 0" "pending ?p1 = 1"
    "texts_of ''countdown'' (trace ?p1) = texts_of ''countdown'' (trace p)"
    "timeouts_of (trace ?p1) = timeouts_of (trace p)"
    "count_list (texts_of ''status'' (trace ?p1)) expired_text
       = count_list (texts_of ''status'' (trace p)) expired_text
         + count_list pre (FailurePush expired_text)"
    using quiet_events [of p pre] pre "0.prems" by simp_all
  let ?p2 = "?p1\<lparr>pending := 0, trace := trace ?p1 @ tick_trace 0\<rparr>"
  have fire: "timer_fires ?p1 = ?p2"
    using p1 by (simp add: timer_fires_def tick_expired)
  have rest: "timeLeft (run_events rest ?p2) = timeLeft ?p2
       \<and> pending (run_events rest ?p2) = pending ?p2
       \<and> texts_of ''countdown'' (trace (run_events rest ?p2)) = texts_of ''countdown'' (trace ?p2)
       \<and> timeouts_of (trace (run_events rest ?p2)) = timeouts_of (trace ?p2)
       \<and> count_list (texts_of ''status'' (trace (run_events rest ?p2))) expired_text
           = count_list (texts_of ''status'' (trace ?p2)) expired_text
             + count_list rest (FailurePush expired_text)"
    by (rule quiet_events) simp
  have run: "run_events evs p = run_events rest ?p2"
    by (simp add: evs otp_event_step_def fire)
  show ?case
    unfolding run using rest p1 by (simp add: evs)
next
  case (Suc n)
  have "TimerFires \<in> set evs"
  proof (rule ccontr)
    assume "TimerFires \<notin> set evs"
    then have "count_list evs TimerFires = 0" by simp
    with Suc.prems(4) show False by simp
  qed
  then obtain pre rest where evs: "evs = pre @ TimerFires # rest" and pre: "TimerFires \<notin> set pre"
    by (auto dest: split_list_first)
  let ?p1 = "run_events pre p"
  have p1: "timeLeft ?p1 = int (Suc n)" "pending ?p1 = 1"
    "texts_of ''countdown'' (trace ?p1) = texts_of ''countdown'' (trace p)"
    "timeouts_of (trace ?p1) = timeouts_of (trace p)"
    "count_list (texts_of ''status'' (trace ?p1)) expired_text
       = count_list (texts_of ''status'' (trace p)) expired_text
         + count_list pre (FailurePush expired_text)"
    using quiet_events [of p pre] pre Suc.prems by simp_all
  let ?p2 = "?p1\<lparr>timeLeft := int n, pending := 1,
                   trace := trace ?p1 @ tick_trace (int (Suc n))\<rparr>"
  have fire: "timer_fires ?p1 = ?p2"
    using p1 Suc.prems(3) by (simp add: timer_fires_def tick_positive toDouble_exact)
  have more: "n < count_list rest TimerFires"
    using Suc.prems(4) pre by (simp add: evs)
  have rest: "timeLeft (run_events rest ?p2) = 0
       \<and> pending (run_events rest ?p2) = 0
       \<and> texts_of ''countdown'' (trace (run_events rest ?p2))
           = texts_of ''countdown'' (trace ?p2) @ map remaining_text (rev [0..int n])
       \<and> timeouts_of (trace (run_events rest ?p2)) = timeouts_of (trace ?p2) + n
       \<and> count_list (texts_of ''status'' (trace (run_events rest ?p2))) expired_text
           = count_list (texts_of ''status'' (trace ?p2)) expired_text + 1
             + count_list rest (FailurePush expired_text)"
    using Suc.prems(3) more by (intro Suc.IH) simp_all
  have run: "run_events evs p = run_events rest ?p2"
    by (simp add: evs otp_event_step_def fire)
  have upto: "rev [0..1 + int n] = (1 + int n) # rev [0..int n]"
    by (simp add: upto_rec2)
  show ?case
    unfolding run using rest p1 by (simp add: evs upto)
qed

lemma timer_only_events:
  "set evs \<subseteq> {TimerFires} \<Longrightarrow> run_events evs p = seconds_pass (length evs) p"
proof (induction evs arbitrary: p)
  case Nil
  show ?case by simp
next
  case (Cons ev evs)
  then have "ev = TimerFires" and "set evs \<subseteq> {TimerFires}"
    by simp_all
  with Cons.IH show ?case
    by (simp add: otp_event_step_def)
qed

lemma timer_only_count:
  "set evs \<subseteq> {TimerFires} \<Longrightarrow> count_list evs TimerFires = length evs"
  by (induction evs) simp_all

subsection \<open>Beyond \<open>2^53\<close>\<close>

lemma countdown_stuck:
  assumes "pending p = 1" and "0 < timeLeft p" and "toDouble (timeLeft p - 1) = timeLeft p"
  shows "pending (seconds_pass k p) = 1
       \<and> timeLeft (seconds_pass k p) = timeLeft p
       \<and> texts_of ''status'' (trace (seconds_pass k p)) = texts_of ''status'' (trace p)"
  using assms
proof (induction k arbitrary: p)
  case 0
  then show ?case by simp
next
  case (Suc k)
  let ?q = "p\<lparr>trace := trace p @ tick_trace (timeLeft p)\<rparr>"
  have fire: "timer_fires p = ?q"
    using Suc.prems by (simp add: timer_fires_def tick_positive)
  have "pending (seconds_pass k ?q) = 1
       \<and> timeLeft (seconds_pass k ?q) = timeLeft ?q
       \<and> texts_of ''status'' (trace (seconds_pass k ?q)) = texts_of ''status'' (trace ?q)"
    by (rule Suc.IH) (use Suc.prems in simp_all)
  with fire Suc.prems(2) show ?case by simp
qed

lemma big_bit_length:
  "bit_length 9007199254740995 = 54"
  "bit_length 9007199254740996 = 54"
  by (simp_all add: bit_length.simps)

lemma big_seed_stuck: "toDouble 9007199254740995 = 9007199254740996"
  by (simp add: toDouble_def big_bit_length Let_def)

lemma big_seed_double: "toDouble 9007199254740996 = 9007199254740996"
  by (simp add: toDouble_def big_bit_length Let_def)

lemma big_seed:
  "initial_timeLeft (Some (js ''9007199254740996'')) = 9007199254740996"
  by (simp add: initial_timeLeft_def parseInt_def isRadixDigit_def digitValue_def
      radixValue_def Let_def string_eval big_seed_double)

subsection \<open>The timer stops only by expiring\<close>

lemma tick_keeps_params [simp]: "searchParams (tick p) = searchParams p"
  by (simp add: tick_def draw_def emit_def Let_def)

lemma seconds_pass_keeps_params [simp]:
  "searchParams (seconds_pass k p) = searchParams p"
  by (induction k arbitrary: p) (simp_all add: timer_fires_def)

lemma calls_tick_page [simp]: "calls_of (trace (tick p)) = calls_of (trace p)"
  by (simp add: tick_appends)

lemma calls_seconds_pass [simp]: "calls_of (trace (seconds_pass k p)) = calls_of (trace p)"
  by (induction k arbitrary: p) (simp_all add: timer_fires_def)

lemma calls_otp_js [simp]: "calls_of (trace (otp_js p)) = calls_of (trace p)"
  by (simp add: otp_js_state)

lemma tick_stops_by_expiring:
  "pending (tick p) = pending p \<and> expired_text \<in> set (texts_of ''status'' (trace (tick p)))
   \<or> pending (tick p) = Suc (pending p)
      \<and> texts_of ''status'' (trace (tick p)) = texts_of ''status'' (trace p)"
  by (cases "0 < timeLeft p") (simp_all add: tick_positive tick_expired)

lemma stopped_means_expired:
  "pending p = 0 \<and> expired_text \<in> set (texts_of ''status'' (trace p)) \<or> pending p = 1 \<Longrightarrow>
   pending (seconds_pass k p) = 0 \<Longrightarrow>
   expired_text \<in> set (texts_of ''status'' (trace (seconds_pass k p)))"
proof (induction k arbitrary: p)
  case 0
  then show ?case by auto
next
  case (Suc k)
  show ?case
  proof (cases "pending p = 0")
    case True
    with Suc.prems show ?thesis
      by (simp add: timer_fires_def seconds_pass_idle)
  next
    case False
    with Suc.prems(1) have one: "pending p = 1" by simp
    let ?q = "timer_fires p"
    have q: "?q = tick (p\<lparr>pending := 0\<rparr>)"
      using one by (simp add: timer_fires_def)
    have "pending ?q = 0 \<and> expired_text \<in> set (texts_of ''status'' (trace ?q)) \<or> pending ?q = 1"
      unfolding q using tick_stops_by_expiring [of "p\<lparr>pending := 0\<rparr>"] by auto
    from Suc.IH [OF this] Suc.prems(2) show ?thesis by simp
  qed
qed

lemma otp_js_running_or_expired:
  "pending (otp_js (new_page store params lock)) = 0
     \<and> expired_text \<in> set (texts_of ''status'' (trace (otp_js (new_page store params lock))))
   \<or> pending (otp_js (new_page store params lock)) = 1"
  using tick_stops_by_expiring
    [of "(new_page store params lock)\<lparr>timeLeft := initial_timeLeft (params ''t'')\<rparr>"]
  by (auto simp add: otp_js_state)

subsection \<open>Evaluating the balance text\<close>

lemmas float_eval =
  balance_text_def parseFloat_def strDecimalLiteral_def exponentPart_def isDecimalDigit_def
  Let_def

section \<open>Emergency lockdown\<close>

text \<open>
  C1.  The claim is that every invocation of the \<open>trigger_emergency_mode\<close> handler, on every
  page, writes the lockdown flag into the session store.  The handler of global.js does
  (\<open>global_handler_sets_flag\<close>).  The handler that each page script declares under the same
  name (script.js:44-49) never touches the store: whatever the page, the store after the call
  is the store before it.  On a login page that loads global.js and then script.js, the page
  script's handler is the one registered last, and after the push the store still holds no
  \<open>lockdown\<close> entry.
\<close>

theorem page_handler_leaves_store:
  "sessionStorage (trigger_emergency_mode_page p) = sessionStorage p
   \<and> sessionStorage
        (push_emergency (load_page [global_js, login_js]
           (new_page Map.empty Map.empty (Some (js ''none''))))) ''lockdown'' = None"
  by (simp add: load_page_def DOMContentLoaded_def run_listener_def lockdown_check_def
      global_js_def login_js_def eel_expose_def new_page_def push_emergency_def emit_def
      Let_def trigger_emergency_mode_page_def split: option.splits)

text \<open>
  C2, as stated, asks for the overlay to be shown before any other initialisation of the page.
  The check is a \<open>DOMContentLoaded\<close> listener, so it runs after the top-level code of the
  page's scripts: on the OTP page, loaded with the flag set, the first tick has already written
  the remaining time and scheduled the next tick when the overlay is switched on, even with
  global.js as the first script.
\<close>

theorem lockdown_check_after_init:
  "drop 1 (trace (load_page [global_js, otp_js]
      (new_page [''lockdown'' \<mapsto> js ''true''] [''t'' \<mapsto> js ''5''] (Some (js ''none'')))))
   = [InnerText ''countdown'' (js ''5s remaining''), SetTimeoutTick,
      Display ''lockscreen'' (js ''flex'')]"
proof -
  let ?p0 = "new_page [''lockdown'' \<mapsto> js ''true''] [''t'' \<mapsto> js ''5''] (Some (js ''none''))"
  have init: "trace (otp_js (global_js ?p0)) = tick_trace 5"
    by (simp add: otp_js_trace seed_values)
  have "trace (load_page [global_js, otp_js] ?p0)
          = tick_trace 5 @ [Display ''lockscreen'' (js ''flex'')]"
    by (simp add: load_page_def DOMContentLoaded_def run_listener_def lockdown_check_def init)
  then show ?thesis
    by (simp add: tick_trace_def remaining_text_values)
qed

text \<open>
  C2, amended.  Take any page load: the scripts have run their top-level code, global.js among
  them (its listener is registered), the store holds the flag and the page has the overlay
  element.  Then dispatching \<open>DOMContentLoaded\<close> switches the overlay on, from the store
  alone (no push takes part in a page load), and this is the last thing the load does: all
  effects of the scripts' top-level code come before it.
\<close>

theorem lockdown_shown_on_load:
  assumes "listeners (fold (\<lambda>script q. script q) scripts p) = [LockdownCheck]"
    and "sessionStorage (fold (\<lambda>script q. script q) scripts p) ''lockdown'' = Some (js ''true'')"
    and "lockscreen (fold (\<lambda>script q. script q) scripts p) = Some d"
  shows "lockscreen (load_page scripts p) = Some (js ''flex'')
       \<and> trace (load_page scripts p)
           = trace (fold (\<lambda>script q. script q) scripts p)
             @ [Display ''lockscreen'' (js ''flex'')]"
  using assms
  by (simp add: load_page_def DOMContentLoaded_def run_listener_def lockdown_check_def emit_def)

text \<open>
  The flag is written by the handler of global.js on one page; the OTP page is then loaded
  in the same session.
\<close>

theorem lockdown_shown_on_load_witness:
  "lockscreen (load_page [global_js, otp_js]
      (new_page (sessionStorage (trigger_emergency_mode_global
                   (new_page Map.empty Map.empty (Some (js ''none'')))))
         [''t'' \<mapsto> js ''5''] (Some (js ''none''))))
     = Some (js ''flex'')
   \<and> trace (load_page [global_js, otp_js]
      (new_page (sessionStorage (trigger_emergency_mode_global
                   (new_page Map.empty Map.empty (Some (js ''none'')))))
         [''t'' \<mapsto> js ''5''] (Some (js ''none''))))
     = tick_trace 5 @ [Display ''lockscreen'' (js ''flex'')]"
proof -
  let ?store = "sessionStorage (trigger_emergency_mode_global
                  (new_page Map.empty Map.empty (Some (js ''none''))))"
  let ?p0 = "new_page ?store [''t'' \<mapsto> js ''5''] (Some (js ''none''))"
  have init: "trace (otp_js (global_js ?p0)) = tick_trace 5"
    by (simp add: otp_js_trace seed_values)
  have l: "listeners (fold (\<lambda>script q. script q) [global_js, otp_js] ?p0) = [LockdownCheck]"
    by simp
  have s: "sessionStorage (fold (\<lambda>script q. script q) [global_js, otp_js] ?p0) ''lockdown''
             = Some (js ''true'')"
    by (simp add: global_handler_sets_flag)
  have d: "lockscreen (fold (\<lambda>script q. script q) [global_js, otp_js] ?p0) = Some (js ''none'')"
    by simp
  show ?thesis
    using lockdown_shown_on_load [OF l s d] init by simp
qed

section \<open>The countdown of the OTP page\<close>

text \<open>
  C3, as stated, holds for every seed \<open>N \<ge> 1\<close>.  \<open>timeLeft\<close> is a double: with the seed
  \<open>2^53 + 4\<close> the decrement \<open>timeLeft--\<close> rounds back to \<open>2^53 + 4\<close>, so the countdown
  stays where it is.  After as many seconds as the seed counts (and after any other number) the
  next tick is still scheduled and the page has not shown the expiry message.
\<close>

theorem countdown_never_ends_above_2_53:
  "initial_timeLeft (Some (js ''9007199254740996'')) = 9007199254740996
   \<and> pending (seconds_pass 9007199254740996
        (otp_js (new_page Map.empty [''t'' \<mapsto> js ''9007199254740996''] None))) = 1
   \<and> timeLeft (seconds_pass 9007199254740996
        (otp_js (new_page Map.empty [''t'' \<mapsto> js ''9007199254740996''] None)))
       = 9007199254740996
   \<and> texts_of ''status'' (trace (seconds_pass 9007199254740996
        (otp_js (new_page Map.empty [''t'' \<mapsto> js ''9007199254740996''] None)))) = []"
proof -
  let ?P = "otp_js (new_page Map.empty [''t'' \<mapsto> js ''9007199254740996''] None)"
  have start: "pending ?P = 1" "timeLeft ?P = 9007199254740996"
    "texts_of ''status'' (trace ?P) = []"
    by (simp_all add: otp_js_state tick_positive big_seed big_seed_stuck)
  have "pending (seconds_pass 9007199254740996 ?P) = 1
       \<and> timeLeft (seconds_pass 9007199254740996 ?P) = timeLeft ?P
       \<and> texts_of ''status'' (trace (seconds_pass 9007199254740996 ?P))
           = texts_of ''status'' (trace ?P)"
    by (rule countdown_stuck) (simp_all add: start big_seed_stuck)
  then show ?thesis
    by (simp add: start big_seed)
qed

text \<open>
  C3, amended.  The OTP page is loaded with a seed \<open>1 \<le> N \<le> 2^53\<close> (the value that otp.js:4
  computes from the \<open>t\<close> parameter; by \<open>seed_of_decimal\<close> every such \<open>N\<close> below \<open>2^53\<close> is
  reached by writing it in decimal).  No success push arrives: the timer fires, and in between,
  in any order, the user may submit codes and the backend may push failures.  Once the timer
  has fired at least \<open>N\<close> times, however many more, the page has shown exactly the remaining
  times \<open>N\<close>, \<open>N - 1\<close>, ..., \<open>0\<close>, none of them negative; the timer has written the expiry
  message exactly once (the status has received it once more than the backend has pushed that
  very text as a failure message); \<open>tick\<close> was scheduled \<open>N\<close> times and no callback is
  scheduled any more, so that the timer firing again changes nothing.  When nothing but the
  timer has run, the expiry message is the one and only status text.
\<close>

theorem countdown_expires_once:
  assumes "1 \<le> N" and "N \<le> 2 ^ 53" and "initial_timeLeft (params ''t'') = N"
    and "nat N \<le> count_list evs TimerFires"
  shows "texts_of ''countdown''
           (trace (run_events evs (otp_js (new_page store params lock))))
           = map remaining_text (rev [0..N])
       \<and> count_list (texts_of ''status''
           (trace (run_events evs (otp_js (new_page store params lock))))) expired_text
           = 1 + count_list evs (FailurePush expired_text)
       \<and> timeouts_of (trace (run_events evs (otp_js (new_page store params lock)))) = nat N
       \<and> pending (run_events evs (otp_js (new_page store params lock))) = 0
       \<and> timer_fires (run_events evs (otp_js (new_page store params lock)))
           = run_events evs (otp_js (new_page store params lock))
       \<and> (set evs \<subseteq> {TimerFires} \<longrightarrow>
            texts_of ''status''
              (trace (run_events evs (otp_js (new_page store params lock)))) = [expired_text])"
proof -
  let ?P = "otp_js (new_page store params lock)"
  define n where "n = nat (N - 1)"
  have n: "N = int (Suc n)"
    using assms(1) by (simp add: n_def)
  have start: "pending ?P = 1" "timeLeft ?P = int n" "trace ?P = tick_trace N"
    using n assms(2,3) by (simp_all add: otp_js_state tick_positive toDouble_exact)
  have small: "int n < 2 ^ 53" and enough: "n < count_list evs TimerFires"
    using n assms(2,4) by simp_all
  have shown: "rev [0..N] = N # rev [0..int n]"
    using n by (simp add: upto_rec2)
  have count: "nat N = Suc n"
    using n by simp
  note run = countdown_under_events [OF start(1) start(2) small enough]
  have only: "texts_of ''status'' (trace (run_events evs ?P)) = [expired_text]"
    if "set evs \<subseteq> {TimerFires}"
  proof -
    have "nat N \<le> length evs"
      using assms(4) that by (simp add: timer_only_count)
    then have "seconds_pass (length evs) ?P
                 = ?P\<lparr>timeLeft := 0, pending := 0, trace := countdown_trace (nat N)\<rparr>"
      using assms(1,2,3) by (intro otp_page_expired) simp_all
    then show ?thesis
      using that by (simp add: timer_only_events texts_status_trace)
  qed
  show ?thesis
    using run only assms(1) by (simp add: start(3) shown count timer_fires_def)
qed

theorem countdown_expires_once_witness:
  "texts_of ''countdown''
     (trace (run_events [TimerFires, Submits (js ''123456''), TimerFires,
                         FailurePush (js ''Wrong code''), TimerFires]
        (otp_js (new_page Map.empty [''t'' \<mapsto> js ''2''] None))))
     = [js ''2s remaining'', js ''1s remaining'', js ''0s remaining'']
   \<and> count_list (texts_of ''status''
     (trace (run_events [TimerFires, Submits (js ''123456''), TimerFires,
                         FailurePush (js ''Wrong code''), TimerFires]
        (otp_js (new_page Map.empty [''t'' \<mapsto> js ''2''] None))))) expired_text = 1
   \<and> pending (run_events [TimerFires, Submits (js ''123456''), TimerFires,
                         FailurePush (js ''Wrong code''), TimerFires]
        (otp_js (new_page Map.empty [''t'' \<mapsto> js ''2''] None))) = 0
   \<and> texts_of ''status''
     (trace (run_events [TimerFires, TimerFires, TimerFires]
        (otp_js (new_page Map.empty [''t'' \<mapsto> js ''2''] None)))) = [expired_text]"
proof -
  let ?evs = "[TimerFires, Submits (js ''123456''), TimerFires,
               FailurePush (js ''Wrong code''), TimerFires]"
  have seed: "initial_timeLeft ([''t'' \<mapsto> js ''2''] ''t'') = 2"
    by (simp add: seed_values)
  have shown: "map remaining_text (rev [0..2])
                 = [js ''2s remaining'', js ''1s remaining'', js ''0s remaining'']"
    by (simp add: remaining_text_values upto.simps)
  have other: "js ''Wrong code'' \<noteq> expired_text"
    by (simp add: expired_text_def string_eval)
  have mixed: "nat 2 \<le> count_list ?evs TimerFires"
    and plain: "nat 2 \<le> count_list [TimerFires, TimerFires, TimerFires] TimerFires"
    by simp_all
  show ?thesis
    using
      countdown_expires_once
        [where N = 2 and params = "[''t'' \<mapsto> js ''2'']" and evs = ?evs
           and store = Map.empty and lock = None]
      countdown_expires_once
        [where N = 2 and params = "[''t'' \<mapsto> js ''2'']"
           and evs = "[TimerFires, TimerFires, TimerFires]"
           and store = Map.empty and lock = None]
      seed shown other mixed plain
    by simp
qed



section \<open>Submitting a code\<close>

text \<open>
  C5, as stated, has the client send no verification request once the challenge has expired.
  With a seed of 1 and three seconds gone, the page has shown the expiry message and no tick
  is scheduled; submitting \<open>123456\<close> then still sends one \<open>verify_otp\<close> request.
\<close>

theorem submitOtp_after_expiry_sends:
  "texts_of ''status'' (trace (seconds_pass 3
      (otp_js (new_page Map.empty [''user'' \<mapsto> js ''alice'', ''t'' \<mapsto> js ''1''] None))))
     = [expired_text]
   \<and> pending (seconds_pass 3
      (otp_js (new_page Map.empty [''user'' \<mapsto> js ''alice'', ''t'' \<mapsto> js ''1''] None))) = 0
   \<and> calls_of (trace (submitOtp (js ''123456'') (seconds_pass 3
      (otp_js (new_page Map.empty [''user'' \<mapsto> js ''alice'', ''t'' \<mapsto> js ''1''] None)))))
     = [VerifyOtp (Some (js ''alice'')) (js ''123456'')]"
proof -
  let ?params = "[''user'' \<mapsto> js ''alice'', ''t'' \<mapsto> js ''1'']"
  have seed: "initial_timeLeft (?params ''t'') = 1"
    by (simp add: seed_values)
  have six: "length (trim (js ''123456'')) = 6"
    by (simp add: trim_values length_values)
  have "seconds_pass 3 (otp_js (new_page Map.empty ?params None))
          = (otp_js (new_page Map.empty ?params None))
              \<lparr>timeLeft := 0, pending := 0, trace := countdown_trace (nat 1)\<rparr>"
    using seed by (intro otp_page_expired) simp_all
  then show ?thesis
    using six by (simp add: submitOtp_six texts_status_trace calls_countdown_trace trim_values)
qed

text \<open>
  C5, amended.  Expiry does not block a submission.  Take the OTP page at a moment when its
  timer has stopped.  It stops only by expiring: the page has shown the expiry message.
  Submitting a code then sends exactly one verification request, for the page's user and the
  trimmed code, if the trimmed code has 6 code units, and no request otherwise; the page has
  sent no other request.
\<close>

theorem submitOtp_after_expiry:
  assumes "pending (seconds_pass k (otp_js (new_page store params lock))) = 0"
  shows "expired_text \<in> set (texts_of ''status''
           (trace (seconds_pass k (otp_js (new_page store params lock)))))
       \<and> calls_of (trace (submitOtp v (seconds_pass k (otp_js (new_page store params lock)))))
           = (if length (trim v) = 6 then [VerifyOtp (params ''user'') (trim v)] else [])"
proof -
  have "expired_text \<in> set (texts_of ''status''
           (trace (seconds_pass k (otp_js (new_page store params lock)))))"
    using otp_js_running_or_expired assms by (rule stopped_means_expired)
  then show ?thesis
    by (simp add: submitOtp_six submitOtp_not_six)
qed

theorem submitOtp_after_expiry_witness:
  "expired_text \<in> set (texts_of ''status'' (trace (seconds_pass 3
      (otp_js (new_page Map.empty [''user'' \<mapsto> js ''alice'', ''t'' \<mapsto> js ''1''] None)))))
   \<and> calls_of (trace (submitOtp (js ''123456'') (seconds_pass 3
      (otp_js (new_page Map.empty [''user'' \<mapsto> js ''alice'', ''t'' \<mapsto> js ''1''] None)))))
     = [VerifyOtp (Some (js ''alice'')) (js ''123456'')]
   \<and> calls_of (trace (submitOtp (js ''12345 '') (seconds_pass 3
      (otp_js (new_page Map.empty [''user'' \<mapsto> js ''alice'', ''t'' \<mapsto> js ''1''] None)))))
     = []"
proof -
  let ?params = "[''user'' \<mapsto> js ''alice'', ''t'' \<mapsto> js ''1'']"
  have seed: "initial_timeLeft (?params ''t'') = 1"
    by (simp add: seed_values)
  have "seconds_pass 3 (otp_js (new_page Map.empty ?params None))
          = (otp_js (new_page Map.empty ?params None))
              \<lparr>timeLeft := 0, pending := 0, trace := countdown_trace (nat 1)\<rparr>"
    using seed by (intro otp_page_expired) simp_all
  then have stopped: "pending (seconds_pass 3 (otp_js (new_page Map.empty ?params None))) = 0"
    by simp
  have six: "length (trim (js ''123456'')) = 6" and five: "length (trim (js ''12345 '')) \<noteq> 6"
    by (simp_all add: trim_values length_values)
  show ?thesis
    using submitOtp_after_expiry [OF stopped, of "js ''123456''"]
      submitOtp_after_expiry [OF stopped, of "js ''12345 ''"] six five
    by (simp add: trim_values)
qed

text \<open>
  C6.  \<open>login\<close> trims both inputs.  If either is then empty it only writes the validation
  message and sends nothing.  Otherwise it writes the authenticating message and sends exactly
  one login request, with the trimmed values, and does not navigate.  In both cases nothing
  of the page changes but the trace: the store, the overlay and the countdown are untouched.
\<close>

theorem login_validation:
  "(trim u = [] \<or> trim pw = [] \<longrightarrow>
      trace (login u pw p)
        = trace p @ [InnerText ''status'' (warning_sign @ js '' Enter username & password'')]
      \<and> calls_of (trace (login u pw p)) = calls_of (trace p))
   \<and> (trim u \<noteq> [] \<and> trim pw \<noteq> [] \<longrightarrow>
      trace (login u pw p)
        = trace p @ [InnerText ''status'' (js ''Authenticating...''),
                     Eel (Login (trim u) (trim pw))]
      \<and> calls_of (trace (login u pw p)) = calls_of (trace p) @ [Login (trim u) (trim pw)]
      \<and> navigations_of (trace (login u pw p)) = navigations_of (trace p))
   \<and> login u pw p = p\<lparr>trace := trace (login u pw p)\<rparr>"
  by (simp add: login_def Let_def emit_def)

theorem login_validation_witness:
  "trace (login (js '' alice'') (js ''   '') (new_page Map.empty Map.empty None))
     = [InnerText ''status'' (warning_sign @ js '' Enter username & password'')]
   \<and> trace (login (js '' alice'') (js ''pw1 '') (new_page Map.empty Map.empty None))
     = [InnerText ''status'' (js ''Authenticating...''),
        Eel (Login (js ''alice'') (js ''pw1''))]"
proof -
  have ne: "js ''alice'' \<noteq> []" "js ''pw1'' \<noteq> []"
    by (simp_all add: js_def)
  show ?thesis
    using login_validation [of "js '' alice''" "js ''   ''" "new_page Map.empty Map.empty None"]
      login_validation [of "js '' alice''" "js ''pw1 ''" "new_page Map.empty Map.empty None"]
      ne
    by (simp add: trim_values)
qed

text \<open>
  C7, as stated, goes by the length of the input.  \<open>submitOtp\<close> goes by the length of the
  trimmed input: an input of 8 code units that is a 6-digit code between two spaces is sent
  to the backend, and an input of 6 code units that is 5 digits and a space is not.
\<close>

theorem submitOtp_counts_trimmed:
  "length (js '' 123456 '') = 8
   \<and> calls_of (trace (submitOtp (js '' 123456 '') (new_page Map.empty Map.empty None)))
       = [VerifyOtp None (js ''123456'')]
   \<and> length (js ''12345 '') = 6
   \<and> calls_of (trace (submitOtp (js ''12345 '') (new_page Map.empty Map.empty None))) = []"
proof -
  have "length (trim (js '' 123456 '')) = 6" "length (trim (js ''12345 '')) \<noteq> 6"
    by (simp_all add: trim_values length_values)
  then show ?thesis
    by (simp add: submitOtp_six submitOtp_not_six trim_values length_values)
qed

text \<open>
  C7, amended.  If the input, trimmed of white space, does not have exactly 6 code units,
  \<open>submitOtp\<close> writes the validation message and sends nothing; if it has, \<open>submitOtp\<close>
  writes the verifying message and sends exactly one verification request, for the page's
  user and the trimmed code.
\<close>

theorem submitOtp_validation:
  "(length (trim v) \<noteq> 6 \<longrightarrow>
      trace (submitOtp v p)
        = trace p @ [InnerText ''status'' (warning_sign @ js '' Enter 6 digits'')]
      \<and> calls_of (trace (submitOtp v p)) = calls_of (trace p))
   \<and> (length (trim v) = 6 \<longrightarrow>
      trace (submitOtp v p)
        = trace p @ [InnerText ''status'' (js ''Verifying...''),
                     Eel (VerifyOtp (searchParams p ''user'') (trim v))]
      \<and> calls_of (trace (submitOtp v p))
        = calls_of (trace p) @ [VerifyOtp (searchParams p ''user'') (trim v)])"
  by (simp add: submitOtp_six submitOtp_not_six)

theorem submitOtp_validation_witness:
  "trace (submitOtp (js '' 123456 '') (new_page Map.empty [''user'' \<mapsto> js ''alice''] None))
     = [InnerText ''status'' (js ''Verifying...''),
        Eel (VerifyOtp (Some (js ''alice'')) (js ''123456''))]
   \<and> trace (submitOtp (js ''12345 '') (new_page Map.empty [''user'' \<mapsto> js ''alice''] None))
     = [InnerText ''status'' (warning_sign @ js '' Enter 6 digits'')]"
proof -
  have six: "length (trim (js '' 123456 '')) = 6" and five: "length (trim (js ''12345 '')) \<noteq> 6"
    by (simp_all add: trim_values length_values)
  show ?thesis
    using
      submitOtp_validation
        [of "js '' 123456 ''" "new_page Map.empty [''user'' \<mapsto> js ''alice''] None"]
      submitOtp_validation
        [of "js ''12345 ''" "new_page Map.empty [''user'' \<mapsto> js ''alice''] None"]
      six five
    by (simp add: trim_values)
qed

section \<open>The main menu\<close>

text \<open>
  C9, as stated, gives the customer menu to every carried role other than \<open>staff\<close>.  The
  script lower-cases the carried value first: \<open>STAFF\<close> is not the string \<open>staff\<close>, and it
  gets the staff menu.
\<close>

theorem menu_ignores_case:
  "js ''STAFF'' \<noteq> js ''staff''
   \<and> map_option buttons (render_menu [''status'' \<mapsto> js ''STAFF''])
       = Some [(''Enable Maintenance'', Some (ToggleMaintenanceCall True)),
               (''Disable Maintenance'', Some (ToggleMaintenanceCall False)),
               (''Logout'', Some LogoutCall)]"
proof -
  have "menu_status [''status'' \<mapsto> js ''STAFF''] = js ''staff''"
    by (simp add: menu_status_def or_default_def toLowerCase_values) (simp add: js_def)
  then show ?thesis
    by (simp add: render_menu_def Let_def holds_markup_def toString_def) (simp add: js_def)
qed

text \<open>
  C9, amended.  The carried \<open>user\<close> holds no markup (no \<open><\<close>).  If the carried \<open>status\<close>,
  lower-cased, is \<open>staff\<close>, the menu holds exactly the two maintenance buttons and logout (no
  balance, withdraw or deposit button) under the staff subtitle.  For every other carried
  value, and when none is carried, the menu holds balance, withdraw, deposit and logout under
  the customer subtitle.  An absent or empty value is replaced by \<open>customer\<close>.
\<close>

theorem menu_by_role:
  assumes "\<not> holds_markup (toString (params ''user''))"
  shows
  "((\<exists>s. params ''status'' = Some s \<and> toLowerCase s = js ''staff'') \<longrightarrow>
      map_option buttons (render_menu params)
        = Some [(''Enable Maintenance'', Some (ToggleMaintenanceCall True)),
                (''Disable Maintenance'', Some (ToggleMaintenanceCall False)),
                (''Logout'', Some LogoutCall)]
      \<and> map_option subtitle (render_menu params) = Some (js ''Staff Access Panel''))
   \<and> (\<not> (\<exists>s. params ''status'' = Some s \<and> toLowerCase s = js ''staff'') \<longrightarrow>
      map_option buttons (render_menu params)
        = Some [(''Check Balance'', Some CheckBalanceCall), (''Withdraw'', None),
                (''Deposit'', None), (''Logout'', Some LogoutCall)]
      \<and> map_option subtitle (render_menu params) = Some (js ''Customer Access Panel''))
   \<and> (params ''status'' = None \<or> params ''status'' = Some [] \<longrightarrow>
      menu_status params = js ''customer'')"
proof -
  have "menu_status params = js ''customer''"
    if "params ''status'' = None \<or> params ''status'' = Some []"
    using that by (auto simp add: menu_status_def or_default_def toLowerCase_def js_def)
  then show ?thesis
    using assms by (simp add: render_menu_def Let_def flip: menu_status_staff_iff)
qed

theorem menu_by_role_witness:
  "map_option buttons (render_menu [''user'' \<mapsto> js ''bob'', ''status'' \<mapsto> js ''Staff''])
     = Some [(''Enable Maintenance'', Some (ToggleMaintenanceCall True)),
             (''Disable Maintenance'', Some (ToggleMaintenanceCall False)),
             (''Logout'', Some LogoutCall)]
   \<and> map_option buttons (render_menu [''user'' \<mapsto> js ''alice''])
     = Some [(''Check Balance'', Some CheckBalanceCall), (''Withdraw'', None),
             (''Deposit'', None), (''Logout'', Some LogoutCall)]
   \<and> menu_status [''user'' \<mapsto> js ''alice''] = js ''customer''"
proof -
  have plain: "\<not> holds_markup
                   (toString ([''user'' \<mapsto> js ''bob'', ''status'' \<mapsto> js ''Staff''] ''user''))"
    "\<not> holds_markup (toString ([''user'' \<mapsto> js ''alice''] ''user''))"
    by (simp_all add: holds_markup_def toString_def js_def)
  have staff: "\<exists>s. [''user'' \<mapsto> js ''bob'', ''status'' \<mapsto> js ''Staff''] ''status'' = Some s
                   \<and> toLowerCase s = js ''staff''"
    by (simp add: toLowerCase_values)
  have other: "\<not> (\<exists>s. [''user'' \<mapsto> js ''alice''] ''status'' = Some s
                        \<and> toLowerCase s = js ''staff'')"
    by simp
  have absent: "[''user'' \<mapsto> js ''alice''] ''status'' = None"
    by simp
  show ?thesis
    using
      menu_by_role [where params = "[''user'' \<mapsto> js ''bob'', ''status'' \<mapsto> js ''Staff'']"]
      menu_by_role [where params = "[''user'' \<mapsto> js ''alice'']"]
      plain staff other absent
    by blast
qed

text \<open>With markup in \<open>user\<close> the script does not decide what the menu holds.\<close>

lemma menu_with_markup:
  "render_menu [''user'' \<mapsto> js ''<button onclick=checkBalance()>Balance</button>'',
                ''status'' \<mapsto> js ''staff''] = None"
  by (simp add: render_menu_def Let_def holds_markup_def toString_def js_def)

section \<open>What the balance page shows\<close>

text \<open>
  C8.  The claim is that the balance page shows the amount with two decimals for a resolved
  amount, the error message for the sentinel \<open>Error\<close>, and never anything else.  The sentinel
  is handled, and a value that starts with a number is shown as \<open>RM\<close> and what \<open>toFixed(2)\<close>
  prints for it.  But the page handles no other case: when no \<open>bal\<close> is carried, as after the
  \<open>show_balance\<close> push, which navigates to the balance page without one, and when \<open>bal\<close> is
  empty or, say, \<open>error\<close>, the page shows \<open>RM NaN\<close>, whatever the runtime prints for numbers.
\<close>

theorem balance_without_amount:
  "navigations_of (trace (show_balance (js ''alice'') (js ''12.5'') p))
     = navigations_of (trace p) @ [js ''balance.html?user=alice&status=customer'']
   \<and> texts_of ''balance-amount''
       (trace (balance_js toFixed2
          (new_page store [''user'' \<mapsto> js ''alice'', ''status'' \<mapsto> js ''customer''] lock)))
     = [js ''RM NaN'']
   \<and> balance_text toFixed2 None = js ''RM NaN''
   \<and> balance_text toFixed2 (Some []) = js ''RM NaN''
   \<and> balance_text toFixed2 (Some (js ''error'')) = js ''RM NaN''
   \<and> balance_text toFixed2 (Some (js ''Error'')) = js ''Error retrieving balance''
   \<and> balance_text toFixed2 (Some (js ''1500.5'')) = js ''RM '' @ toFixed2 (js ''1500.5'')"
proof -
  have absent: "balance_text toFixed2 None = js ''RM NaN''"
    by (simp add: float_eval string_eval)
  have "navigations_of (trace (show_balance (js ''alice'') (js ''12.5'') p))
          = navigations_of (trace p) @ [js ''balance.html?user=alice&status=customer'']"
    by (simp add: show_balance_def) (simp add: js_def)
  moreover have "texts_of ''balance-amount''
       (trace (balance_js toFixed2
          (new_page store [''user'' \<mapsto> js ''alice'', ''status'' \<mapsto> js ''customer''] lock)))
     = [js ''RM NaN'']"
    by (simp add: balance_js_def Let_def eel_expose_def absent)
  moreover have "balance_text toFixed2 (Some []) = js ''RM NaN''"
    by (simp add: float_eval string_eval)
  moreover have "balance_text toFixed2 (Some (js ''error'')) = js ''RM NaN''"
    by (simp add: float_eval string_eval)
  moreover have "balance_text toFixed2 (Some (js ''Error'')) = js ''Error retrieving balance''"
    by (simp add: float_eval string_eval)
  moreover have "balance_text toFixed2 (Some (js ''1500.5'')) = js ''RM '' @ toFixed2 (js ''1500.5'')"
    by (simp add: float_eval string_eval)
  ultimately show ?thesis
    using absent by simp
qed

section \<open>The countdown seed\<close>

text \<open>
  C10.  When the \<open>t\<close> parameter is absent, or \<open>parseInt\<close> finds no number in it, or finds 0,
  otp.js:4 starts the countdown at 60: the first tick shows 60 seconds, nothing has expired,
  59 seconds are left and the next tick is scheduled.
\<close>

theorem seed_defaults_to_sixty:
  assumes "params ''t'' = None
           \<or> (\<exists>s. params ''t'' = Some s \<and> (parseInt s = None \<or> parseInt s = Some 0))"
  shows "initial_timeLeft (params ''t'') = 60
       \<and> trace (otp_js (new_page store params lock)) = tick_trace 60
       \<and> texts_of ''countdown'' (trace (otp_js (new_page store params lock)))
           = [js ''60s remaining'']
       \<and> texts_of ''status'' (trace (otp_js (new_page store params lock))) = []
       \<and> timeLeft (otp_js (new_page store params lock)) = 59
       \<and> pending (otp_js (new_page store params lock)) = 1"
proof -
  have seed: "initial_timeLeft (params ''t'') = 60"
    using assms by (auto simp add: initial_timeLeft_def toString_def parseInt_values)
  show ?thesis
    using seed by (simp add: otp_js_state tick_positive remaining_text_values toDouble_exact)
qed

theorem seed_defaults_to_sixty_witness:
  "texts_of ''countdown'' (trace (otp_js (new_page Map.empty [''t'' \<mapsto> js ''0''] None)))
     = [js ''60s remaining'']
   \<and> timeLeft (otp_js (new_page Map.empty [''t'' \<mapsto> js ''0''] None)) = 59
   \<and> texts_of ''countdown'' (trace (otp_js (new_page Map.empty [''t'' \<mapsto> js ''abc''] None)))
     = [js ''60s remaining'']
   \<and> texts_of ''countdown'' (trace (otp_js (new_page Map.empty Map.empty None)))
     = [js ''60s remaining'']"
proof -
  have zero: "[''t'' \<mapsto> js ''0''] ''t'' = None
              \<or> (\<exists>s. [''t'' \<mapsto> js ''0''] ''t'' = Some s
                      \<and> (parseInt s = None \<or> parseInt s = Some 0))"
    by (simp add: parseInt_values)
  have letters: "[''t'' \<mapsto> js ''abc''] ''t'' = None
              \<or> (\<exists>s. [''t'' \<mapsto> js ''abc''] ''t'' = Some s
                      \<and> (parseInt s = None \<or> parseInt s = Some 0))"
    by (simp add: parseInt_values)
  have absent: "(Map.empty :: string \<rightharpoonup> jsstring) ''t'' = None
              \<or> (\<exists>s. (Map.empty :: string \<rightharpoonup> jsstring) ''t'' = Some s
                      \<and> (parseInt s = None \<or> parseInt s = Some 0))"
    by simp
  show ?thesis
    using
      seed_defaults_to_sixty
        [where params = "[''t'' \<mapsto> js ''0'']" and store = Map.empty and lock = None]
      seed_defaults_to_sixty
        [where params = "[''t'' \<mapsto> js ''abc'']" and store = Map.empty and lock = None]
      seed_defaults_to_sixty
        [where params = Map.empty and store = Map.empty and lock = None]
      zero letters absent
    by blast
qed

end
